theory Spec2Isabelle
  imports Complex_Main "HOL-Library.Word"
begin

section \<open>Pointers, strides and the loop idiom of the kernel\<close>

text \<open>
  The kernel functions of \<^verbatim>\<open>_histogram_src.c\<close> walk an image through byte
  pointers. An address is a byte offset in a flat address space, modelled as a natural
  number (the wrap-around of the 64-bit address space itself is not modelled). A typed read
  \<^verbatim>\<open>*(T * ) p\<close> is a function \<open>mem :: addr \<Rightarrow> T\<close>: the sample found at address
  \<open>p\<close>. The arrays \<^verbatim>\<open>starts\<close> and \<^verbatim>\<open>ends\<close> are read through
  \<open>nat \<Rightarrow> 16 word\<close>, the element found at an index.

  Every loop of the file has the shape
  \<^verbatim>\<open>for (p = start; p != stop; p += stride) body\<close>.
  It stops only when the pointer hits \<open>stop\<close> exactly, so it is a partial function:
  \<open>None\<close> stands for a loop that never meets its bound, and for a body that has no
  defined result (a histogram store outside the buffer).
\<close>

type_synonym addr = nat

partial_function (option) for_ptr ::
  "(addr \<Rightarrow> 's \<Rightarrow> 's option) \<Rightarrow> nat \<Rightarrow> addr \<Rightarrow> addr \<Rightarrow> 's \<Rightarrow> 's option"
where
  "for_ptr body stride stop p s =
     (if p = stop then Some s
      else Option.bind (body p s) (for_ptr body stride stop (p + stride)))"

text \<open>
  The row loop of the masked functions also advances \<^verbatim>\<open>starts++, ends++\<close>: the
  index \<open>i\<close> is the number of increments so far.
\<close>

partial_function (option) for_rows ::
  "(addr \<Rightarrow> nat \<Rightarrow> 's \<Rightarrow> 's option) \<Rightarrow> nat \<Rightarrow> addr \<Rightarrow> addr \<Rightarrow> nat \<Rightarrow> 's \<Rightarrow> 's option"
where
  "for_rows body stride stop row_start i s =
     (if row_start = stop then Some s
      else Option.bind (body row_start i s)
             (for_rows body stride stop (row_start + stride) (i + 1)))"

text \<open>
  \<^verbatim>\<open>rows*r_stride\<close>, \<^verbatim>\<open>cols*c_stride\<close>, \<^verbatim>\<open>(*starts)*c_stride\<close>: a
  \<^verbatim>\<open>uint16_t\<close> times a \<^verbatim>\<open>uint32_t\<close> is computed in \<^verbatim>\<open>unsigned int\<close> and
  wraps modulo \<open>2 ^ 32\<close> before it is added to the pointer.
\<close>

definition mul_u32 :: "16 word \<Rightarrow> 32 word \<Rightarrow> nat" where
  "mul_u32 n stride = unat ((ucast n :: 32 word) * stride)"

text \<open>The loop nest of the unmasked functions: every row, every column.\<close>

definition scan_rows ::
  "(addr \<Rightarrow> 's \<Rightarrow> 's option) \<Rightarrow> addr \<Rightarrow> 16 word \<Rightarrow> 16 word \<Rightarrow> 32 word \<Rightarrow> 32 word
     \<Rightarrow> 's \<Rightarrow> 's option"
where
  "scan_rows body img rows cols r_stride c_stride s =
     for_ptr
       (\<lambda>row_start.
          for_ptr body (unat c_stride) (row_start + mul_u32 cols c_stride) row_start)
       (unat r_stride) (img + mul_u32 rows r_stride) img s"

text \<open>
  The loop nest of the masked functions: row \<open>i\<close> is walked from column
  \<open>starts i\<close> to column \<open>ends i\<close> (exclusive). The parameter \<open>cols\<close> of the C
  functions is not used by them.
\<close>

definition scan_spans ::
  "(addr \<Rightarrow> 's \<Rightarrow> 's option) \<Rightarrow> addr \<Rightarrow> 16 word \<Rightarrow> 32 word \<Rightarrow> 32 word
     \<Rightarrow> (nat \<Rightarrow> 16 word) \<Rightarrow> (nat \<Rightarrow> 16 word) \<Rightarrow> 's \<Rightarrow> 's option"
where
  "scan_spans body img rows r_stride c_stride starts ends s =
     for_rows
       (\<lambda>row_start i.
          for_ptr body (unat c_stride) (row_start + mul_u32 (ends i) c_stride)
            (row_start + mul_u32 (starts i) c_stride))
       (unat r_stride) (img + mul_u32 rows r_stride) img 0 s"

section \<open>The statements of the loop body\<close>

text \<open>
  \<^verbatim>\<open>histogram[i]++\<close> on a buffer of \<^verbatim>\<open>uint32_t\<close> counters. The index is a C
  \<^verbatim>\<open>int\<close>; a store outside the buffer has no defined result.
\<close>

definition incr :: "int \<Rightarrow> 32 word list \<Rightarrow> 32 word list option" where
  "incr i histogram =
     (if 0 \<le> i \<and> i < int (length histogram)
      then Some (histogram[nat i := histogram ! nat i + 1])
      else None)"

text \<open>A sample is counted in one bin, or in none (\<open>None\<close>: the sample is dropped).\<close>

fun store :: "int option \<Rightarrow> 32 word list \<Rightarrow> 32 word list option" where
  "store None histogram = Some histogram"
| "store (Some i) histogram = incr i histogram"

text \<open>
  \<^verbatim>\<open>if (val < working_min) working_min = val;
  else if (val > working_max) working_max = val;\<close>
\<close>

definition track :: "'v::linorder \<Rightarrow> 'v \<times> 'v \<Rightarrow> 'v \<times> 'v" where
  "track val = (\<lambda>(working_min, working_max).
     if val < working_min then (val, working_max)
     else if val > working_max then (working_min, val)
     else (working_min, working_max))"

text \<open>The bin of a sample, function by function.\<close>

definition fixed_bin_uint8 :: "8 word \<Rightarrow> int option" where
  \<comment> \<open>\<^verbatim>\<open>histogram[val]++\<close>\<close>
  "fixed_bin_uint8 val = Some (uint val)"

definition fixed_bin_uint16 :: "8 word \<Rightarrow> 16 word \<Rightarrow> int option" where
  \<comment> \<open>\<^verbatim>\<open>histogram[val >> shift]++\<close>, on the promoted \<^verbatim>\<open>int\<close>\<close>
  "fixed_bin_uint16 shift val = Some (drop_bit (unat shift) (uint val))"

definition ranged_bin_uint8 :: "8 word \<Rightarrow> 8 word \<Rightarrow> 8 word \<Rightarrow> int option" where
  \<comment> \<open>\<^verbatim>\<open>if (val >= hist_min && val <= hist_max) histogram[val - hist_min]++;\<close>\<close>
  "ranged_bin_uint8 hist_min hist_max val =
     (if val \<ge> hist_min \<and> val \<le> hist_max then Some (uint val - uint hist_min) else None)"

text \<open>
  The \<^verbatim>\<open>uint16_t\<close> and \<^verbatim>\<open>float\<close> ranged functions compute
  \<^verbatim>\<open>float bin_factor = (float) n_bins / (hist_max - hist_min)\<close> once and index the
  histogram with \<^verbatim>\<open>(uint16_t) (bin_factor * (val - hist_min))\<close>. Single-precision
  arithmetic is not modelled: the value of that expression is the parameter
  \<open>to_bin n_bins hist_min hist_max val\<close>. The branch structure around it is the code's:
  \<^verbatim>\<open>if (val >= hist_min && val < hist_max) histogram[...]++;
  else if (val == hist_max) (*last_bin)++;\<close>
  with \<^verbatim>\<open>last_bin = histogram + n_bins - 1\<close>.
\<close>

definition ranged_bin ::
  "(16 word \<Rightarrow> 'v \<Rightarrow> 'v \<Rightarrow> 'v \<Rightarrow> 16 word) \<Rightarrow> 16 word \<Rightarrow> 'v::linorder \<Rightarrow> 'v \<Rightarrow> 'v \<Rightarrow> int option"
where
  "ranged_bin to_bin n_bins hist_min hist_max val =
     (if val \<ge> hist_min \<and> val < hist_max then Some (uint (to_bin n_bins hist_min hist_max val))
      else if val = hist_max then Some (uint n_bins - 1)
      else None)"

text \<open>One pass of the inner loop body of the functions that keep a histogram and min/max.\<close>

definition visit ::
  "('v \<Rightarrow> int option) \<Rightarrow> 'v::linorder \<Rightarrow> 32 word list \<times> 'v \<times> 'v \<Rightarrow> (32 word list \<times> 'v \<times> 'v) option"
where
  "visit bin val = (\<lambda>(histogram, working).
     Option.bind (store (bin val) histogram) (\<lambda>histogram. Some (histogram, track val working)))"

section \<open>The kernel functions\<close>

text \<open>
  Each function returns what the C function leaves in its output parameters: the histogram
  buffer after the call and \<open>(*min, *max)\<close>. Samples of type \<^verbatim>\<open>float\<close> are
  modelled as elements of a linear order (finite values and infinities compare so); NaN,
  which compares false with everything, is outside the model.
\<close>

definition hist_uint8 ::
  "(addr \<Rightarrow> 8 word) \<Rightarrow> addr \<Rightarrow> 16 word \<Rightarrow> 16 word \<Rightarrow> 32 word \<Rightarrow> 32 word \<Rightarrow> 32 word list
     \<Rightarrow> (32 word list \<times> 8 word \<times> 8 word) option"
where
  "hist_uint8 mem img rows cols r_stride c_stride histogram =
     scan_rows (\<lambda>pixel. visit fixed_bin_uint8 (mem pixel))
       img rows cols r_stride c_stride (histogram, mem img, mem img)"

definition ranged_hist_uint8 ::
  "(addr \<Rightarrow> 8 word) \<Rightarrow> addr \<Rightarrow> 16 word \<Rightarrow> 16 word \<Rightarrow> 32 word \<Rightarrow> 32 word \<Rightarrow> 32 word list
     \<Rightarrow> 8 word \<Rightarrow> 8 word \<Rightarrow> (32 word list \<times> 8 word \<times> 8 word) option"
where
  "ranged_hist_uint8 mem img rows cols r_stride c_stride histogram hist_min hist_max =
     scan_rows (\<lambda>pixel. visit (ranged_bin_uint8 hist_min hist_max) (mem pixel))
       img rows cols r_stride c_stride (histogram, mem img, mem img)"

definition masked_hist_uint8 ::
  "(addr \<Rightarrow> 8 word) \<Rightarrow> addr \<Rightarrow> 16 word \<Rightarrow> 16 word \<Rightarrow> 32 word \<Rightarrow> 32 word
     \<Rightarrow> (nat \<Rightarrow> 16 word) \<Rightarrow> (nat \<Rightarrow> 16 word) \<Rightarrow> 32 word list
     \<Rightarrow> (32 word list \<times> 8 word \<times> 8 word) option"
where
  "masked_hist_uint8 mem img rows cols r_stride c_stride starts ends histogram =
     (let seed = mem (img + mul_u32 (starts 0) c_stride) in
      scan_spans (\<lambda>pixel. visit fixed_bin_uint8 (mem pixel))
        img rows r_stride c_stride starts ends (histogram, seed, seed))"

definition masked_ranged_hist_uint8 ::
  "(addr \<Rightarrow> 8 word) \<Rightarrow> addr \<Rightarrow> 16 word \<Rightarrow> 16 word \<Rightarrow> 32 word \<Rightarrow> 32 word
     \<Rightarrow> (nat \<Rightarrow> 16 word) \<Rightarrow> (nat \<Rightarrow> 16 word) \<Rightarrow> 32 word list \<Rightarrow> 8 word \<Rightarrow> 8 word
     \<Rightarrow> (32 word list \<times> 8 word \<times> 8 word) option"
where
  "masked_ranged_hist_uint8 mem img rows cols r_stride c_stride starts ends histogram
       hist_min hist_max =
     (let seed = mem (img + mul_u32 (starts 0) c_stride) in
      scan_spans (\<lambda>pixel. visit (ranged_bin_uint8 hist_min hist_max) (mem pixel))
        img rows r_stride c_stride starts ends (histogram, seed, seed))"

definition hist_uint16 ::
  "(addr \<Rightarrow> 16 word) \<Rightarrow> addr \<Rightarrow> 16 word \<Rightarrow> 16 word \<Rightarrow> 32 word \<Rightarrow> 32 word \<Rightarrow> 32 word list
     \<Rightarrow> 8 word \<Rightarrow> (32 word list \<times> 16 word \<times> 16 word) option"
where
  "hist_uint16 mem img rows cols r_stride c_stride histogram shift =
     scan_rows (\<lambda>pixel. visit (fixed_bin_uint16 shift) (mem pixel))
       img rows cols r_stride c_stride (histogram, mem img, mem img)"

definition ranged_hist_uint16 ::
  "(16 word \<Rightarrow> 16 word \<Rightarrow> 16 word \<Rightarrow> 16 word \<Rightarrow> 16 word)
     \<Rightarrow> (addr \<Rightarrow> 16 word) \<Rightarrow> addr \<Rightarrow> 16 word \<Rightarrow> 16 word \<Rightarrow> 32 word \<Rightarrow> 32 word \<Rightarrow> 32 word list
     \<Rightarrow> 16 word \<Rightarrow> 16 word \<Rightarrow> 16 word \<Rightarrow> (32 word list \<times> 16 word \<times> 16 word) option"
where
  "ranged_hist_uint16 to_bin mem img rows cols r_stride c_stride histogram
       n_bins hist_min hist_max =
     scan_rows (\<lambda>pixel. visit (ranged_bin to_bin n_bins hist_min hist_max) (mem pixel))
       img rows cols r_stride c_stride (histogram, mem img, mem img)"

definition masked_hist_uint16 ::
  "(addr \<Rightarrow> 16 word) \<Rightarrow> addr \<Rightarrow> 16 word \<Rightarrow> 16 word \<Rightarrow> 32 word \<Rightarrow> 32 word
     \<Rightarrow> (nat \<Rightarrow> 16 word) \<Rightarrow> (nat \<Rightarrow> 16 word) \<Rightarrow> 32 word list \<Rightarrow> 8 word
     \<Rightarrow> (32 word list \<times> 16 word \<times> 16 word) option"
where
  "masked_hist_uint16 mem img rows cols r_stride c_stride starts ends histogram shift =
     (let seed = mem (img + mul_u32 (starts 0) c_stride) in
      scan_spans (\<lambda>pixel. visit (fixed_bin_uint16 shift) (mem pixel))
        img rows r_stride c_stride starts ends (histogram, seed, seed))"

definition masked_ranged_hist_uint16 ::
  "(16 word \<Rightarrow> 16 word \<Rightarrow> 16 word \<Rightarrow> 16 word \<Rightarrow> 16 word)
     \<Rightarrow> (addr \<Rightarrow> 16 word) \<Rightarrow> addr \<Rightarrow> 16 word \<Rightarrow> 16 word \<Rightarrow> 32 word \<Rightarrow> 32 word
     \<Rightarrow> (nat \<Rightarrow> 16 word) \<Rightarrow> (nat \<Rightarrow> 16 word) \<Rightarrow> 32 word list
     \<Rightarrow> 16 word \<Rightarrow> 16 word \<Rightarrow> 16 word \<Rightarrow> (32 word list \<times> 16 word \<times> 16 word) option"
where
  "masked_ranged_hist_uint16 to_bin mem img rows cols r_stride c_stride starts ends histogram
       n_bins hist_min hist_max =
     (let seed = mem (img + mul_u32 (starts 0) c_stride) in
      scan_spans (\<lambda>pixel. visit (ranged_bin to_bin n_bins hist_min hist_max) (mem pixel))
        img rows r_stride c_stride starts ends (histogram, seed, seed))"

definition minmax_float ::
  "(addr \<Rightarrow> 'f::linorder) \<Rightarrow> addr \<Rightarrow> 16 word \<Rightarrow> 16 word \<Rightarrow> 32 word \<Rightarrow> 32 word
     \<Rightarrow> ('f \<times> 'f) option"
where
  "minmax_float mem img rows cols r_stride c_stride =
     scan_rows (\<lambda>pixel working. Some (track (mem pixel) working))
       img rows cols r_stride c_stride (mem img, mem img)"

definition masked_minmax_float ::
  "(addr \<Rightarrow> 'f::linorder) \<Rightarrow> addr \<Rightarrow> 16 word \<Rightarrow> 16 word \<Rightarrow> 32 word \<Rightarrow> 32 word
     \<Rightarrow> (nat \<Rightarrow> 16 word) \<Rightarrow> (nat \<Rightarrow> 16 word) \<Rightarrow> ('f \<times> 'f) option"
where
  "masked_minmax_float mem img rows cols r_stride c_stride starts ends =
     (let seed = mem (img + mul_u32 (starts 0) c_stride) in
      scan_spans (\<lambda>pixel working. Some (track (mem pixel) working))
        img rows r_stride c_stride starts ends (seed, seed))"


definition masked_ranged_hist_float ::
  "(16 word \<Rightarrow> 'f \<Rightarrow> 'f \<Rightarrow> 'f \<Rightarrow> 16 word)
     \<Rightarrow> (addr \<Rightarrow> 'f::linorder) \<Rightarrow> addr \<Rightarrow> 16 word \<Rightarrow> 16 word \<Rightarrow> 32 word \<Rightarrow> 32 word
     \<Rightarrow> (nat \<Rightarrow> 16 word) \<Rightarrow> (nat \<Rightarrow> 16 word) \<Rightarrow> 32 word list \<Rightarrow> 16 word \<Rightarrow> 'f \<Rightarrow> 'f
     \<Rightarrow> 32 word list option"
where
  "masked_ranged_hist_float to_bin mem img rows cols r_stride c_stride starts ends histogram
       n_bins hist_min hist_max =
     scan_spans (\<lambda>pixel. store (ranged_bin to_bin n_bins hist_min hist_max (mem pixel)))
       img rows r_stride c_stride starts ends histogram"

section \<open>The Python entry points for histogram and min/max\<close>

text \<open>
  \<^verbatim>\<open>py_hist_min_max\<close> and \<^verbatim>\<open>py_masked_hist_min_max\<close> of
  \<^verbatim>\<open>_ndimage_statistics_module.cpp\<close> request their buffers, test them in a fixed
  order and throw \<^verbatim>\<open>std::invalid_argument\<close> at the first test that fails; only
  after the last test they call the kernel template, which is where samples are read.
  A \<^verbatim>\<open>py::buffer_info\<close> is modelled by the fields the tests look at
  (\<open>length (shape b) = ndim b\<close> for a buffer that Python hands over). A format string
  is compared with \<^verbatim>\<open>py::format_descriptor<T>::value()\<close> only, so it is modelled
  by the element type it names, or as some other string.

  The templates and \<^verbatim>\<open>bin_count<T>()\<close> are declared in
  \<^verbatim>\<open>_ndimage_statistics.h\<close>, which is not among the sources:
  \<open>bin_count\<close> is a parameter of the model, and a call of a kernel template is
  recorded by its name, element type and \<^verbatim>\<open>is_twelve_bit\<close> flag.
\<close>

datatype format = Uint8 | Uint16 | Uint32 | Uint64 | Float | Double | Other string

record buffer_info =
  ndim :: nat
  format :: format
  shape :: "nat list"

datatype invalid_argument =
    Im_not_2d  \<comment> \<open>im argument must be a 2 dimensional buffer object\<close>
  | Mask_not_2d  \<comment> \<open>mask argument must be a 2 dimensionsal buffer object\<close>
  | Mask_format  \<comment> \<open>mask argument format must be uint8 or bool\<close>
  | Hist_not_1d  \<comment> \<open>hist argument must be a 1 dimensional buffer object\<close>
  | Hist_format  \<comment> \<open>hist argument format must be uint32\<close>
  | Min_max_not_1d  \<comment> \<open>min_max arugment must be a 1 dimensional buffer object\<close>
  | Min_max_length  \<comment> \<open>min_max argument must contain exactly 2 elements\<close>
  | Format_mismatch  \<comment> \<open>im and min_max arguments must be the same format\<close>
  | Hist_length nat format  \<comment> \<open>hist argument must contain N elements for T im\<close>
  | Twelve_bit_not_uint16  \<comment> \<open>is_twelve_bit may be True only if im is uint16\<close>
  | Unsupported  \<comment> \<open>Only uint8, uint16, uint32, and uint64 im buffers are supported\<close>

datatype kernel_call =
    Hist_min_max format bool
  | Masked_hist_min_max format bool

definition py_hist_min_max ::
  "(format \<Rightarrow> nat) \<Rightarrow> buffer_info \<Rightarrow> buffer_info \<Rightarrow> buffer_info \<Rightarrow> bool
     \<Rightarrow> invalid_argument + kernel_call"
where
  "py_hist_min_max bin_count im_info hist_info min_max_info is_twelve_bit =
     (if ndim im_info \<noteq> 2 then Inl Im_not_2d
      else if ndim hist_info \<noteq> 1 then Inl Hist_not_1d
      else if format hist_info \<noteq> Uint32 then Inl Hist_format
      else if ndim min_max_info \<noteq> 1 then Inl Min_max_not_1d
      else if shape min_max_info ! 0 \<noteq> 2 then Inl Min_max_length
      else if format im_info \<noteq> format min_max_info then Inl Format_mismatch
      else if is_twelve_bit then
        (if format im_info = Uint16 then
           (if shape hist_info ! 0 \<noteq> bin_count Uint16
            then Inl (Hist_length (bin_count Uint16) Uint16)
            else Inr (Hist_min_max Uint16 True))
         else Inl Twelve_bit_not_uint16)
      else if format im_info = Uint8 then
        (if shape hist_info ! 0 \<noteq> bin_count Uint8
         then Inl (Hist_length (bin_count Uint8) Uint8)
         else Inr (Hist_min_max Uint8 False))
      else if format im_info = Uint16 then
        (if shape hist_info ! 0 \<noteq> bin_count Uint16
         then Inl (Hist_length (bin_count Uint16) Uint16)
         else Inr (Hist_min_max Uint16 False))
      else if format im_info = Uint32 then
        (if shape hist_info ! 0 \<noteq> bin_count Uint32
         then Inl (Hist_length (bin_count Uint32) Uint32)
         else Inr (Hist_min_max Uint32 False))
      else if format im_info = Uint64 then
        (if shape hist_info ! 0 \<noteq> bin_count Uint64
         then Inl (Hist_length (bin_count Uint64) Uint64)
         else Inr (Hist_min_max Uint64 False))
      else Inl Unsupported)"

text \<open>
  In the \<^verbatim>\<open>uint16_t\<close> branch without \<^verbatim>\<open>is_twelve_bit\<close> the masked entry
  point tests \<^verbatim>\<open>hist_info.shape[0] != bin_count<std::uint8_t>()\<close> and builds its
  message from \<^verbatim>\<open>bin_count<std::uint16_t>()\<close>; the model keeps both as written.
\<close>

definition py_masked_hist_min_max ::
  "(format \<Rightarrow> nat) \<Rightarrow> buffer_info \<Rightarrow> buffer_info \<Rightarrow> buffer_info \<Rightarrow> buffer_info \<Rightarrow> bool
     \<Rightarrow> invalid_argument + kernel_call"
where
  "py_masked_hist_min_max bin_count im_info mask_info hist_info min_max_info is_twelve_bit =
     (if ndim im_info \<noteq> 2 then Inl Im_not_2d
      else if ndim mask_info \<noteq> 2 then Inl Mask_not_2d
      else if format mask_info \<noteq> Uint8 then Inl Mask_format
      else if ndim hist_info \<noteq> 1 then Inl Hist_not_1d
      else if format hist_info \<noteq> Uint32 then Inl Hist_format
      else if ndim min_max_info \<noteq> 1 then Inl Min_max_not_1d
      else if shape min_max_info ! 0 \<noteq> 2 then Inl Min_max_length
      else if format im_info \<noteq> format min_max_info then Inl Format_mismatch
      else if is_twelve_bit then
        (if format im_info = Uint16 then
           (if shape hist_info ! 0 \<noteq> bin_count Uint16
            then Inl (Hist_length (bin_count Uint16) Uint16)
            else Inr (Masked_hist_min_max Uint16 True))
         else Inl Twelve_bit_not_uint16)
      else if format im_info = Uint8 then
        (if shape hist_info ! 0 \<noteq> bin_count Uint8
         then Inl (Hist_length (bin_count Uint8) Uint8)
         else Inr (Masked_hist_min_max Uint8 False))
      else if format im_info = Uint16 then
        (if shape hist_info ! 0 \<noteq> bin_count Uint8
         then Inl (Hist_length (bin_count Uint16) Uint16)
         else Inr (Masked_hist_min_max Uint16 False))
      else if format im_info = Uint32 then
        (if shape hist_info ! 0 \<noteq> bin_count Uint32
         then Inl (Hist_length (bin_count Uint32) Uint32)
         else Inr (Masked_hist_min_max Uint32 False))
      else if format im_info = Uint64 then
        (if shape hist_info ! 0 \<noteq> bin_count Uint64
         then Inl (Hist_length (bin_count Uint64) Uint64)
         else Inr (Masked_hist_min_max Uint64 False))
      else Inl Unsupported)"

section \<open>Vocabulary of the properties\<close>

text \<open>
  The pixels of a view, in the order the loops visit them: the address of the sample at
  row \<open>r\<close> and column \<open>c\<close> is \<open>img + r * r_stride + c * c_stride\<close>.
\<close>

definition pixel_at :: "addr \<Rightarrow> 32 word \<Rightarrow> 32 word \<Rightarrow> nat \<Rightarrow> nat \<Rightarrow> addr" where
  "pixel_at img r_stride c_stride r c = img + r * unat r_stride + c * unat c_stride"

definition image_pixels :: "addr \<Rightarrow> 16 word \<Rightarrow> 16 word \<Rightarrow> 32 word \<Rightarrow> 32 word \<Rightarrow> addr list" where
  "image_pixels img rows cols r_stride c_stride =
     [img + r * unat r_stride + c * unat c_stride. r \<leftarrow> [0..<unat rows], c \<leftarrow> [0..<unat cols]]"

definition span_pixels ::
  "addr \<Rightarrow> 16 word \<Rightarrow> 32 word \<Rightarrow> 32 word \<Rightarrow> (nat \<Rightarrow> 16 word) \<Rightarrow> (nat \<Rightarrow> 16 word) \<Rightarrow> addr list" where
  "span_pixels img rows r_stride c_stride starts ends =
     [img + r * unat r_stride + c * unat c_stride.
        r \<leftarrow> [0..<unat rows], c \<leftarrow> [unat (starts r)..<unat (ends r)]]"

text \<open>The active samples: all \<open>rows * cols\<close> of them, or those of the row spans.\<close>

definition image_samples ::
  "(addr \<Rightarrow> 'v) \<Rightarrow> addr \<Rightarrow> 16 word \<Rightarrow> 16 word \<Rightarrow> 32 word \<Rightarrow> 32 word \<Rightarrow> 'v list" where
  "image_samples mem img rows cols r_stride c_stride =
     map mem (image_pixels img rows cols r_stride c_stride)"

definition span_samples ::
  "(addr \<Rightarrow> 'v) \<Rightarrow> addr \<Rightarrow> 16 word \<Rightarrow> 32 word \<Rightarrow> 32 word \<Rightarrow> (nat \<Rightarrow> 16 word) \<Rightarrow> (nat \<Rightarrow> 16 word)
     \<Rightarrow> 'v list" where
  "span_samples mem img rows r_stride c_stride starts ends =
     map mem (span_pixels img rows r_stride c_stride starts ends)"

text \<open>
  A view the pointer loops can walk: the strides are not zero (with a zero stride
  \<open>start = stop\<close> and the loop body never runs) and the extents
  \<open>rows * r_stride\<close> and \<open>cols * c_stride\<close> do not wrap in 32 bits (a wrapped
  bound is not met by the pointer, or is met too early).
\<close>

definition view_ok :: "16 word \<Rightarrow> 16 word \<Rightarrow> 32 word \<Rightarrow> 32 word \<Rightarrow> bool" where
  "view_ok rows cols r_stride c_stride \<longleftrightarrow>
     r_stride \<noteq> 0 \<and> c_stride \<noteq> 0 \<and>
     unat rows * unat r_stride < 2 ^ 32 \<and> unat cols * unat c_stride < 2 ^ 32"

text \<open>A mask as the interface requires it: \<open>starts[i] \<le> ends[i] \<le> cols\<close> for every row.\<close>

definition mask_ok :: "16 word \<Rightarrow> 16 word \<Rightarrow> (nat \<Rightarrow> 16 word) \<Rightarrow> (nat \<Rightarrow> 16 word) \<Rightarrow> bool" where
  "mask_ok rows cols starts ends \<longleftrightarrow>
     (\<forall>i < unat rows. starts i \<le> ends i \<and> ends i \<le> cols)"

text \<open>Every bin chosen for a sample of \<open>vs\<close> lies inside a buffer of \<open>n\<close> counters.\<close>

definition in_bounds :: "('v \<Rightarrow> int option) \<Rightarrow> 'v list \<Rightarrow> nat \<Rightarrow> bool" where
  "in_bounds bin vs n \<longleftrightarrow> (\<forall>v \<in> set vs. \<forall>i. bin v = Some i \<longrightarrow> 0 \<le> i \<and> i < int n)"



text \<open>
  The update with two independent comparisons, \<^verbatim>\<open>if (val < working_min) ...;
  if (val > working_max) ...;\<close>, against which the \<^verbatim>\<open>else if\<close> of the
  code is compared.
\<close>

definition track_both :: "'v::linorder \<Rightarrow> 'v \<times> 'v \<Rightarrow> 'v \<times> 'v" where
  "track_both val = (\<lambda>(working_min, working_max).
     (if val < working_min then val else working_min,
      if val > working_max then val else working_max))"

text \<open>A loop over a list of addresses or samples whose body may have no result.\<close>

fun fold_opt :: "('a \<Rightarrow> 's \<Rightarrow> 's option) \<Rightarrow> 'a list \<Rightarrow> 's \<Rightarrow> 's option" where
  "fold_opt f [] s = Some s"
| "fold_opt f (x # xs) s = Option.bind (f x s) (fold_opt f xs)"

section \<open>The loops as folds over the visited samples\<close>

subsection \<open>Folds whose body may have no result\<close>

lemma fold_opt_append:
  "fold_opt f (xs @ ys) s = Option.bind (fold_opt f xs s) (fold_opt f ys)"
proof (induction xs arbitrary: s)
  case Nil
  show ?case by simp
next
  case (Cons x xs)
  show ?case by (cases "f x s") (simp_all add: Cons.IH)
qed

lemma fold_opt_concat:
  "fold_opt f (concat xss) = fold_opt (\<lambda>xs. fold_opt f xs) xss"
proof (induction xss)
  case Nil
  show ?case by (rule ext) simp
next
  case (Cons a xss)
  show ?case by (rule ext) (simp add: fold_opt_append Cons.IH)
qed

lemma fold_opt_map: "fold_opt f (map g xs) = fold_opt (\<lambda>x. f (g x)) xs"
proof (induction xs)
  case Nil
  show ?case by (rule ext) simp
next
  case (Cons a xs)
  show ?case by (rule ext) (simp add: Cons.IH)
qed

lemma fold_opt_cong:
  "(\<And>x s. x \<in> set xs \<Longrightarrow> f x s = g x s) \<Longrightarrow> fold_opt f xs s = fold_opt g xs s"
proof (induction xs arbitrary: s)
  case Nil
  show ?case by simp
next
  case (Cons x xs)
  have "f x s = g x s" by (rule Cons.prems) simp
  moreover have "fold_opt f xs = fold_opt g xs"
    by (rule ext) (rule Cons.IH, rule Cons.prems, simp)
  ultimately show ?case by simp
qed

subsection \<open>The pointer loops visit the pixels of the view in order\<close>

lemma for_ptr_unroll:
  "0 < stride \<Longrightarrow>
   for_ptr body stride (p + n * stride) p s =
   fold_opt body (map (\<lambda>k. p + k * stride) [0..<n]) s"
proof (induction n arbitrary: p s)
  case 0
  then show ?case by (simp add: for_ptr.simps)
next
  case (Suc n)
  have stop: "p + Suc n * stride = (p + stride) + n * stride" by simp
  have l: "map (\<lambda>k. p + k * stride) [0..<Suc n] = p # map (\<lambda>k. (p + stride) + k * stride) [0..<n]"
    by (simp add: upt_conv_Cons map_Suc_upt [symmetric] del: upt_Suc)
  have "for_ptr body stride (p + Suc n * stride) p s =
        Option.bind (body p s) (for_ptr body stride (p + Suc n * stride) (p + stride))"
    using Suc.prems by (subst for_ptr.simps) simp
  also have "for_ptr body stride (p + Suc n * stride) (p + stride) =
        fold_opt body (map (\<lambda>k. (p + stride) + k * stride) [0..<n])"
    unfolding stop by (rule ext) (rule Suc.IH [OF Suc.prems])
  finally show ?case unfolding l by simp
qed

lemma for_rows_unroll:
  "0 < stride \<Longrightarrow>
   for_rows body stride (p + n * stride) p i s =
   fold_opt (\<lambda>k. body (p + k * stride) (i + k)) [0..<n] s"
proof (induction n arbitrary: p i s)
  case 0
  then show ?case by (simp add: for_rows.simps)
next
  case (Suc n)
  have stop: "p + Suc n * stride = (p + stride) + n * stride" by simp
  have l: "[0..<Suc n] = 0 # map Suc [0..<n]"
    by (simp add: upt_conv_Cons map_Suc_upt del: upt_Suc)
  have "for_rows body stride (p + Suc n * stride) p i s =
        Option.bind (body p i s) (for_rows body stride (p + Suc n * stride) (p + stride) (i + 1))"
    using Suc.prems by (subst for_rows.simps) simp
  also have "for_rows body stride (p + Suc n * stride) (p + stride) (i + 1) =
        fold_opt (\<lambda>k. body ((p + stride) + k * stride) ((i + 1) + k)) [0..<n]"
    unfolding stop by (rule ext) (rule Suc.IH [OF Suc.prems])
  finally show ?case unfolding l by (simp add: fold_opt_map add.assoc)
qed

lemma mul_u32_exact:
  "unat n * unat stride < 2 ^ 32 \<Longrightarrow> mul_u32 n stride = unat n * unat stride"
proof -
  assume a: "unat n * unat stride < 2 ^ 32"
  have u: "unat (ucast n :: 32 word) = unat n"
    by (simp add: unsigned_ucast_eq take_bit_nat_eq_self unsigned_less [THEN less_trans])
  have "unat (ucast n :: 32 word) * unat stride < 2 ^ LENGTH(32)"
    using a by (simp add: u)
  then have "unat ((ucast n :: 32 word) * stride) = unat (ucast n :: 32 word) * unat stride"
    by (simp only: unat_mult_lem)
  then show ?thesis by (simp add: mul_u32_def u)
qed

lemma for_ptr_span:
  assumes "0 < cs" "a \<le> b"
  shows "for_ptr body cs (row + b * cs) (row + a * cs) s =
         fold_opt body (map (\<lambda>c. row + c * cs) [a..<b]) s"
proof -
  have "row + b * cs = (row + a * cs) + (b - a) * cs"
    using assms(2) by (simp add: diff_mult_distrib)
  moreover have "map (\<lambda>k. (row + a * cs) + k * cs) [0..<b - a] = map (\<lambda>c. row + c * cs) [a..<b]"
  proof -
    have "[a..<b] = map (\<lambda>k. k + a) [0..<b - a]"
      using assms(2) by (simp add: map_add_upt)
    then show ?thesis by (simp add: algebra_simps)
  qed
  ultimately show ?thesis using for_ptr_unroll [OF assms(1), of body "row + a * cs" "b - a" s]
    by (simp only:)
qed

lemma scan_rows_fold:
  assumes "view_ok rows cols r_stride c_stride"
  shows "scan_rows body img rows cols r_stride c_stride s =
         fold_opt body (image_pixels img rows cols r_stride c_stride) s"
proof -
  from assms have rs: "0 < unat r_stride" and cs: "0 < unat c_stride"
    and mr: "mul_u32 rows r_stride = unat rows * unat r_stride"
    and mc: "mul_u32 cols c_stride = unat cols * unat c_stride"
    by (simp_all add: view_ok_def unat_gt_0 mul_u32_exact)
  have inner: "for_ptr body (unat c_stride) (row_start + mul_u32 cols c_stride) row_start =
      fold_opt body (map (\<lambda>c. row_start + c * unat c_stride) [0..<unat cols])" for row_start
    unfolding mc by (rule ext) (rule for_ptr_unroll [OF cs])
  show ?thesis
    unfolding scan_rows_def inner mr image_pixels_def
    by (simp add: for_ptr_unroll [OF rs] fold_opt_concat fold_opt_map)
qed

lemma scan_spans_fold:
  assumes "view_ok rows cols r_stride c_stride" and "mask_ok rows cols starts ends"
  shows "scan_spans body img rows r_stride c_stride starts ends s =
         fold_opt body (span_pixels img rows r_stride c_stride starts ends) s"
proof -
  from assms(1) have rs: "0 < unat r_stride" and cs: "0 < unat c_stride"
    and mr: "mul_u32 rows r_stride = unat rows * unat r_stride"
    and cc: "unat cols * unat c_stride < 2 ^ 32"
    by (simp_all add: view_ok_def unat_gt_0 mul_u32_exact)
  have inner: "for_ptr body (unat c_stride) (row_start + mul_u32 (ends i) c_stride)
                 (row_start + mul_u32 (starts i) c_stride) s' =
      fold_opt body (map (\<lambda>c. row_start + c * unat c_stride) [unat (starts i)..<unat (ends i)]) s'"
    if "i \<in> set [0..<unat rows]" for row_start i s'
  proof -
    from that assms(2) have le: "starts i \<le> ends i" "ends i \<le> cols"
      by (simp_all add: mask_ok_def)
    then have n: "unat (starts i) \<le> unat (ends i)" "unat (ends i) \<le> unat cols"
      by (simp_all add: word_le_nat_alt)
    have "unat (ends i) * unat c_stride \<le> unat cols * unat c_stride"
      using n(2) by (rule mult_le_mono1)
    moreover have "unat (starts i) * unat c_stride \<le> unat cols * unat c_stride"
      using n by (intro mult_le_mono1) simp
    ultimately have "unat (ends i) * unat c_stride < 2 ^ 32"
      "unat (starts i) * unat c_stride < 2 ^ 32"
      using cc by linarith+
    then have "mul_u32 (ends i) c_stride = unat (ends i) * unat c_stride"
      "mul_u32 (starts i) c_stride = unat (starts i) * unat c_stride"
      by (simp_all add: mul_u32_exact)
    then show ?thesis using for_ptr_span [OF cs n(1)] by simp
  qed
  have "scan_spans body img rows r_stride c_stride starts ends s =
       fold_opt (\<lambda>k. for_ptr body (unat c_stride)
           (img + k * unat r_stride + mul_u32 (ends k) c_stride)
           (img + k * unat r_stride + mul_u32 (starts k) c_stride)) [0..<unat rows] s"
    unfolding scan_spans_def mr by (simp add: for_rows_unroll [OF rs])
  also have "\<dots> = fold_opt (\<lambda>k. fold_opt body
       (map (\<lambda>c. img + k * unat r_stride + c * unat c_stride) [unat (starts k)..<unat (ends k)]))
       [0..<unat rows] s"
    by (rule fold_opt_cong) (rule inner)
  finally show ?thesis
    unfolding span_pixels_def by (simp add: fold_opt_concat fold_opt_map)
qed



subsection \<open>Min/max and counters over a list of samples\<close>




lemma fold_opt_total: "fold_opt (\<lambda>v s. Some (g v s)) vs s = Some (fold g vs s)"
  by (induction vs arbitrary: s) simp_all

lemma visit_apply:
  "visit bin v (h, w) = Option.bind (store (bin v) h) (\<lambda>h'. Some (h', track v w))"
  by (simp add: visit_def)

lemma fold_opt_visit:
  "fold_opt (visit bin) vs (h, w) =
     map_option (\<lambda>h'. (h', fold track vs w)) (fold_opt (\<lambda>v. store (bin v)) vs h)"
proof (induction vs arbitrary: h w)
  case Nil
  show ?case by simp
next
  case (Cons v vs)
  show ?case
    by (cases "store (bin v) h") (simp_all add: visit_apply Cons.IH)
qed

lemma incr_sum:
  assumes "0 \<le> i" "i < int (length h)" "sum_list (map unat h) + 1 < 2 ^ 32"
  shows "\<exists>h'. incr i h = Some h' \<and> length h' = length h \<and>
           sum_list (map unat h') = sum_list (map unat h) + 1"
proof -
  let ?k = "nat i"
  have k: "?k < length h" using assms by simp
  then have "unat (h ! ?k) \<in> set (map unat h)" by simp
  then have "unat (h ! ?k) \<le> sum_list (map unat h)" by (auto intro: member_le_sum_list)
  then have "unat (h ! ?k) + unat (1 :: 32 word) < 2 ^ LENGTH(32)" using assms(3) by simp
  then have "unat (h ! ?k + 1) = unat (h ! ?k) + unat (1 :: 32 word)"
    by (rule unat_add_lem [THEN iffD1])
  then have u: "unat (h ! ?k + 1) = unat (h ! ?k) + 1" by simp
  have "sum_list (map unat (h[?k := h ! ?k + 1])) =
        sum_list (map unat h) + unat (h ! ?k + 1) - unat (h ! ?k)"
    using k by (simp add: map_update sum_list_update)
  then show ?thesis using assms(1,2) by (simp add: incr_def u)
qed

lemma store_fold_sum:
  assumes "in_bounds bin vs (length h)"
    and "sum_list (map unat h) + length vs < 2 ^ 32"
  shows "\<exists>h'. fold_opt (\<lambda>v. store (bin v)) vs h = Some h' \<and> length h' = length h \<and>
           sum_list (map unat h') =
             sum_list (map unat h) + length (filter (\<lambda>v. bin v \<noteq> None) vs)"
  using assms
proof (induction vs arbitrary: h)
  case Nil
  show ?case by simp
next
  case (Cons v vs)
  from Cons.prems(1) have rest: "\<And>h'. length h' = length h \<Longrightarrow> in_bounds bin vs (length h')"
    by (simp add: in_bounds_def)
  show ?case
  proof (cases "bin v")
    case None
    from Cons.IH [OF rest [OF refl]] Cons.prems(2) None show ?thesis by simp
  next
    case (Some i)
    with Cons.prems(1) have i: "0 \<le> i" "i < int (length h)" by (simp_all add: in_bounds_def)
    from Cons.prems(2) have "sum_list (map unat h) + 1 < 2 ^ 32" by simp
    from incr_sum [OF i this] obtain h1 where h1: "incr i h = Some h1" "length h1 = length h"
      "sum_list (map unat h1) = sum_list (map unat h) + 1" by blast
    from Cons.prems(2) h1(3) have "sum_list (map unat h1) + length vs < 2 ^ 32" by simp
    from Cons.IH [OF rest [OF h1(2)] this] h1 Some show ?thesis by simp
  qed
qed

lemma store_fold_defined:
  assumes "in_bounds bin vs (length h)"
  shows "\<exists>h'. fold_opt (\<lambda>v. store (bin v)) vs h = Some h' \<and> length h' = length h"
  using assms
proof (induction vs arbitrary: h)
  case Nil
  show ?case by simp
next
  case (Cons v vs)
  from Cons.prems have rest: "\<And>h'. length h' = length h \<Longrightarrow> in_bounds bin vs (length h')"
    by (simp add: in_bounds_def)
  show ?case
  proof (cases "bin v")
    case None
    from Cons.IH [OF rest [OF refl]] None show ?thesis by simp
  next
    case (Some i)
    with Cons.prems have i: "0 \<le> i" "i < int (length h)" by (simp_all add: in_bounds_def)
    then have h1: "incr i h = Some (h[nat i := h ! nat i + 1])" by (simp add: incr_def)
    from Cons.IH [OF rest, of "h[nat i := h ! nat i + 1]"] h1 Some show ?thesis by simp
  qed
qed

subsection \<open>Sizes of views and bins of the fixed path\<close>



lemma fixed_bin_uint8_in_bounds: "in_bounds fixed_bin_uint8 vs 256"
proof -
  have "uint v < 256" for v :: "8 word" using uint_bounded [of v] by simp
  then show ?thesis by (auto simp: in_bounds_def fixed_bin_uint8_def)
qed

lemma shifted_bound:
  assumes "unat shift \<le> 16"
  shows "0 \<le> drop_bit (unat shift) (uint (val :: 16 word))"
    and "drop_bit (unat shift) (uint val) < 2 ^ (16 - unat shift)"
proof -
  show "0 \<le> drop_bit (unat shift) (uint val)" by simp
  have "unat val < 2 ^ 16" using unsigned_less [of val] by simp
  also have "(2 :: nat) ^ 16 = 2 ^ ((16 - unat shift) + unat shift)"
    using assms by simp
  also have "\<dots> = 2 ^ (16 - unat shift) * 2 ^ unat shift"
    by (rule power_add)
  finally have "unat val div 2 ^ unat shift < 2 ^ (16 - unat shift)"
    by (rule less_mult_imp_div_less)
  then have "int (unat val div 2 ^ unat shift) < int (2 ^ (16 - unat shift))"
    by (simp only: of_nat_less_iff)
  moreover have "drop_bit (unat shift) (uint val) = int (unat val div 2 ^ unat shift)"
    by (simp only: drop_bit_eq_div uint_nat zdiv_int of_nat_power of_nat_numeral)
  ultimately show "drop_bit (unat shift) (uint val) < 2 ^ (16 - unat shift)"
    by (simp only: of_nat_power of_nat_numeral)
qed

lemma fixed_bin_uint16_in_bounds:
  "unat shift \<le> 16 \<Longrightarrow> in_bounds (fixed_bin_uint16 shift) vs (2 ^ (16 - unat shift))"
proof -
  assume "unat shift \<le> 16"
  then have "0 \<le> drop_bit (unat shift) (uint v) \<and>
      drop_bit (unat shift) (uint v) < int (2 ^ (16 - unat shift))" for v :: "16 word"
    using shifted_bound [of shift v] by simp
  then show ?thesis
    unfolding in_bounds_def fixed_bin_uint16_def by blast
qed


subsection \<open>The kernel loops on the sample lists\<close>

lemma hist_fold_result:
  assumes "in_bounds bin vs (length h)"
  shows "\<exists>h'. fold_opt (visit bin) vs (h, w) = Some (h', fold track vs w) \<and>
           length h' = length h \<and>
           (sum_list (map unat h) + length vs < 2 ^ 32 \<longrightarrow>
              sum_list (map unat h') =
                sum_list (map unat h) + length (filter (\<lambda>v. bin v \<noteq> None) vs))"
proof -
  from store_fold_defined [OF assms] obtain h' where
    h': "fold_opt (\<lambda>v. store (bin v)) vs h = Some h'" "length h' = length h" by blast
  have "sum_list (map unat h') =
          sum_list (map unat h) + length (filter (\<lambda>v. bin v \<noteq> None) vs)"
    if "sum_list (map unat h) + length vs < 2 ^ 32"
    using store_fold_sum [OF assms that] h'(1) by simp
  with h' show ?thesis by (simp add: fold_opt_visit)
qed

lemma scan_rows_visit:
  assumes "view_ok rows cols r_stride c_stride"
  shows "scan_rows (\<lambda>pixel. visit bin (mem pixel)) img rows cols r_stride c_stride s =
         fold_opt (visit bin) (image_samples mem img rows cols r_stride c_stride) s"
  unfolding scan_rows_fold [OF assms] image_samples_def fold_opt_map ..

lemma scan_spans_visit:
  assumes "view_ok rows cols r_stride c_stride" and "mask_ok rows cols starts ends"
  shows "scan_spans (\<lambda>pixel. visit bin (mem pixel)) img rows r_stride c_stride starts ends s =
         fold_opt (visit bin) (span_samples mem img rows r_stride c_stride starts ends) s"
  unfolding scan_spans_fold [OF assms] span_samples_def fold_opt_map ..


lemma scan_spans_store:
  assumes "view_ok rows cols r_stride c_stride" and "mask_ok rows cols starts ends"
  shows "scan_spans (\<lambda>pixel. store (bin (mem pixel))) img rows r_stride c_stride starts ends s =
         fold_opt (\<lambda>v. store (bin v)) (span_samples mem img rows r_stride c_stride starts ends) s"
  unfolding scan_spans_fold [OF assms] span_samples_def fold_opt_map ..

lemma scan_rows_track:
  assumes "view_ok rows cols r_stride c_stride"
  shows "scan_rows (\<lambda>pixel working. Some (track (mem pixel) working))
           img rows cols r_stride c_stride s =
         Some (fold track (image_samples mem img rows cols r_stride c_stride) s)"
  unfolding scan_rows_fold [OF assms] image_samples_def fold_opt_map fold_map
  by (simp add: fold_opt_total comp_def)

lemma scan_spans_track:
  assumes "view_ok rows cols r_stride c_stride" and "mask_ok rows cols starts ends"
  shows "scan_spans (\<lambda>pixel working. Some (track (mem pixel) working))
           img rows r_stride c_stride starts ends s =
         Some (fold track (span_samples mem img rows r_stride c_stride starts ends) s)"
  unfolding scan_spans_fold [OF assms] span_samples_def fold_opt_map fold_map
  by (simp add: fold_opt_total comp_def)








lemma mask_ok_two_rows:
  assumes "starts 0 \<le> ends 0" "ends 0 \<le> cols" "starts 1 \<le> ends 1" "ends 1 \<le> cols"
  shows "mask_ok 2 cols starts ends"
  unfolding mask_ok_def
proof (intro allI impI)
  fix i
  assume "i < unat (2 :: 16 word)"
  then have "i = 0 \<or> i = 1" by auto
  then show "starts i \<le> ends i \<and> ends i \<le> cols" using assms by auto
qed

lemma uint_shift_right:
  "uint (drop_bit n (v :: 16 word)) = drop_bit n (uint v)"
proof -
  have "uint v < 2 ^ 16" using uint_bounded [of v] by simp
  then have "take_bit 16 (uint v) = uint v" by (simp add: take_bit_int_eq_self)
  then show ?thesis by (simp add: unsigned_drop_bit_eq)
qed

lemma hist_defined:
  assumes "in_bounds bin vs (length h)"
  shows "\<exists>h' mm. fold_opt (visit bin) vs (h, w) = Some (h', mm) \<and> length h' = length h"
  using hist_fold_result [OF assms, of w] by blast

subsection \<open>Full and empty masks\<close>

lemma mul_u32_zero: "mul_u32 0 stride = 0"
  by (simp add: mul_u32_def)

lemma full_mask_ok:
  "\<forall>i < unat rows. starts i = 0 \<and> ends i = cols \<Longrightarrow> mask_ok rows cols starts ends"
  by (simp add: mask_ok_def)

lemma full_span_pixels:
  assumes "\<forall>i < unat rows. starts i = 0 \<and> ends i = cols"
  shows "span_pixels img rows r_stride c_stride starts ends =
         image_pixels img rows cols r_stride c_stride"
proof -
  have "map (\<lambda>r. map (\<lambda>c. img + r * unat r_stride + c * unat c_stride)
                [unat (starts r)..<unat (ends r)]) [0..<unat rows] =
        map (\<lambda>r. map (\<lambda>c. img + r * unat r_stride + c * unat c_stride)
                [0..<unat cols]) [0..<unat rows]"
    using assms by (intro map_cong refl) simp
  then show ?thesis by (simp only: span_pixels_def image_pixels_def)
qed

lemma full_span_seed:
  assumes "rows \<noteq> 0" and "\<forall>i < unat rows. starts i = 0 \<and> ends i = cols"
  shows "img + mul_u32 (starts 0) c_stride = img"
proof -
  from assms(1) have "0 < unat rows" by (simp add: unat_gt_0)
  with assms(2) have "starts 0 = 0" by simp
  then show ?thesis by (simp add: mul_u32_zero)
qed

lemma empty_span_samples:
  assumes "\<forall>i < unat rows. starts i = ends i"
  shows "span_samples mem img rows r_stride c_stride starts ends = []"
  using assms by (simp add: span_samples_def span_pixels_def)

lemma seed_address:
  assumes "view_ok rows cols r_stride c_stride" and "mask_ok rows cols starts ends"
    and "rows \<noteq> 0"
  shows "img + mul_u32 (starts 0) c_stride = img + 0 * unat r_stride + unat (starts 0) * unat c_stride"
proof -
  from assms(3) have "0 < unat rows" by (simp add: unat_gt_0)
  with assms(2) have "starts 0 \<le> ends 0" "ends 0 \<le> cols" by (simp_all add: mask_ok_def)
  then have "unat (starts 0) \<le> unat cols" by (simp add: word_le_nat_alt)
  then have "unat (starts 0) * unat c_stride \<le> unat cols * unat c_stride"
    by (rule mult_le_mono1)
  moreover from assms(1) have "unat cols * unat c_stride < 2 ^ 32" by (simp add: view_ok_def)
  ultimately have "unat (starts 0) * unat c_stride < 2 ^ 32" by linarith
  then show ?thesis by (simp add: mul_u32_exact)
qed

subsection \<open>Bins of the ranged path\<close>



lemma ranged_bin_uint8_in_bounds:
  assumes "uint hi - uint lo < int n"
  shows "in_bounds (ranged_bin_uint8 lo hi) vs n"
  using assms by (auto simp: in_bounds_def ranged_bin_uint8_def word_le_def)

lemma ranged_bin_in_bounds:
  assumes "n_bins \<noteq> 0"
    and "\<forall>v. lo \<le> v \<and> v < hi \<longrightarrow> to_bin n_bins lo hi v < n_bins"
  shows "in_bounds (ranged_bin to_bin n_bins lo hi) vs (unat n_bins)"
proof -
  from assms(1) have "uint n_bins \<noteq> 0" by (simp add: unsigned_eq_0_iff)
  then have n: "0 < uint n_bins" using uint_ge_0 [of n_bins] by linarith
  have "0 \<le> uint (to_bin n_bins lo hi v) \<and> uint (to_bin n_bins lo hi v) < uint n_bins"
    if "lo \<le> v \<and> v < hi" for v
    using that assms(2) by (simp add: word_less_def)
  with n show ?thesis
    by (auto simp: in_bounds_def ranged_bin_def split: if_splits)
qed






subsection \<open>What a counter holds after the pass\<close>
















subsection \<open>The bin formula of the specification\<close>




subsection \<open>Invariants carried through the pointer loops\<close>

lemma for_ptr_invariant:
  assumes "for_ptr body stride stop p s = Some s'"
    and "\<And>p s s'. I s \<Longrightarrow> body p s = Some s' \<Longrightarrow> I s'"
    and "I s"
  shows "I s'"
proof -
  have "(\<forall>p s s'. I s \<longrightarrow> body p s = Some s' \<longrightarrow> I s') \<longrightarrow> I s \<longrightarrow> I s'"
  proof (rule for_ptr.raw_induct [where P = "\<lambda>b st sp p s y.
      (\<forall>p s s'. I s \<longrightarrow> b p s = Some s' \<longrightarrow> I s') \<longrightarrow> I s \<longrightarrow> I y", OF _ assms(1)],
      goal_cases)
    case (1 for_ptr' body stride stop p s y)
    show ?case
    proof (intro impI)
      assume step: "\<forall>p s s'. I s \<longrightarrow> body p s = Some s' \<longrightarrow> I s'" and s: "I s"
      show "I y"
      proof (cases "p = stop")
        case True
        with 1(2) s show ?thesis by simp
      next
        case False
        with 1(2) obtain s1 where b: "body p s = Some s1"
          and r: "for_ptr' body stride stop (p + stride) s1 = Some y"
          by (auto simp: bind_eq_Some_conv)
        from step s b have "I s1" by blast
        with 1(1) [OF r] step show ?thesis by blast
      qed
    qed
  qed
  with assms(2,3) show ?thesis by blast
qed

lemma for_rows_invariant:
  assumes "for_rows body stride stop p i s = Some s'"
    and "\<And>p i s s'. I s \<Longrightarrow> body p i s = Some s' \<Longrightarrow> I s'"
    and "I s"
  shows "I s'"
proof -
  have "(\<forall>p i s s'. I s \<longrightarrow> body p i s = Some s' \<longrightarrow> I s') \<longrightarrow> I s \<longrightarrow> I s'"
  proof (rule for_rows.raw_induct [where P = "\<lambda>b st sp p i s y.
      (\<forall>p i s s'. I s \<longrightarrow> b p i s = Some s' \<longrightarrow> I s') \<longrightarrow> I s \<longrightarrow> I y", OF _ assms(1)],
      goal_cases)
    case (1 for_rows' body stride stop p i s y)
    show ?case
    proof (intro impI)
      assume step: "\<forall>p i s s'. I s \<longrightarrow> body p i s = Some s' \<longrightarrow> I s'" and s: "I s"
      show "I y"
      proof (cases "p = stop")
        case True
        with 1(2) s show ?thesis by simp
      next
        case False
        with 1(2) obtain s1 where b: "body p i s = Some s1"
          and r: "for_rows' body stride stop (p + stride) (i + 1) s1 = Some y"
          by (auto simp: bind_eq_Some_conv)
        from step s b have "I s1" by blast
        with 1(1) [OF r] step show ?thesis by blast
      qed
    qed
  qed
  with assms(2,3) show ?thesis by blast
qed

lemma scan_rows_invariant:
  assumes "scan_rows body img rows cols r_stride c_stride s = Some s'"
    and step: "\<And>p s s'. I s \<Longrightarrow> body p s = Some s' \<Longrightarrow> I s'"
    and "I s"
  shows "I s'"
proof (rule for_ptr_invariant [where I = I, OF assms(1) [unfolded scan_rows_def]])
  fix p s s'
  assume "I s" and "for_ptr body (unat c_stride) (p + mul_u32 cols c_stride) p s = Some s'"
  then show "I s'" using step by (rule for_ptr_invariant [where I = I, rotated 2])
next
  show "I s" by fact
qed

lemma scan_spans_invariant:
  assumes "scan_spans body img rows r_stride c_stride starts ends s = Some s'"
    and step: "\<And>p s s'. I s \<Longrightarrow> body p s = Some s' \<Longrightarrow> I s'"
    and "I s"
  shows "I s'"
proof (rule for_rows_invariant [where I = I, OF assms(1) [unfolded scan_spans_def]])
  fix p i s s'
  assume "I s" and "for_ptr body (unat c_stride) (p + mul_u32 (ends i) c_stride)
      (p + mul_u32 (starts i) c_stride) s = Some s'"
  then show "I s'" using step by (rule for_ptr_invariant [where I = I, rotated 2])
next
  show "I s" by fact
qed

lemma track_keeps_order:
  assumes "a \<le> b"
  shows "fst (track v (a, b)) \<le> snd (track v (a, b))"
    and "fst (track v (a, b)) \<le> a" and "b \<le> snd (track v (a, b))"
    and "track v (a, b) = track_both v (a, b)"
  using assms by (auto simp: track_def track_both_def)

lemma visit_keeps_order:
  assumes "fst (snd s) \<le> snd (snd s)" and "visit bin v s = Some s'"
  shows "fst (snd s') \<le> snd (snd s')"
proof -
  obtain h a b where s: "s = (h, a, b)" by (cases s) auto
  with assms(2) obtain h' where "s' = (h', track v (a, b))"
    by (auto simp: visit_apply bind_eq_Some_conv)
  with assms(1) s show ?thesis using track_keeps_order(1) [of a b v] by simp
qed

lemma hist_rows_ordered:
  assumes "scan_rows (\<lambda>pixel. visit bin (mem pixel)) img rows cols r_stride c_stride
             (h, seed, seed) = Some (h', mn, mx)"
  shows "mn \<le> mx"
  using scan_rows_invariant [OF assms, where I = "\<lambda>s. fst (snd s) \<le> snd (snd s)"]
    visit_keeps_order by fastforce

lemma hist_spans_ordered:
  assumes "scan_spans (\<lambda>pixel. visit bin (mem pixel)) img rows r_stride c_stride starts ends
             (h, seed, seed) = Some (h', mn, mx)"
  shows "mn \<le> mx"
  using scan_spans_invariant [OF assms, where I = "\<lambda>s. fst (snd s) \<le> snd (snd s)"]
    visit_keeps_order by fastforce

lemma rows_defined:
  assumes "view_ok rows cols r_stride c_stride"
    and "in_bounds bin (image_samples mem img rows cols r_stride c_stride) (length h)"
  shows "\<exists>h' mn mx. scan_rows (\<lambda>pixel. visit bin (mem pixel)) img rows cols r_stride c_stride
           (h, w) = Some (h', mn, mx)"
  unfolding scan_rows_visit [OF assms(1)] using hist_defined [OF assms(2), of w] by auto

lemma spans_defined:
  assumes "view_ok rows cols r_stride c_stride" and "mask_ok rows cols starts ends"
    and "in_bounds bin (span_samples mem img rows r_stride c_stride starts ends) (length h)"
  shows "\<exists>h' mn mx. scan_spans (\<lambda>pixel. visit bin (mem pixel)) img rows r_stride c_stride
           starts ends (h, w) = Some (h', mn, mx)"
  unfolding scan_spans_visit [OF assms(1,2)] using hist_defined [OF assms(3), of w] by auto

section \<open>C1: min and max are the true extrema\<close>



section \<open>C2: the fixed histograms count every active sample\<close>



section \<open>C9: the fixed path never indexes out of bounds\<close>

text \<open>
  Claim C9. On the fixed path the bin of a sample is \<open>value >> shift\<close> (the value
  itself for 8-bit samples), and it is less than \<open>2 ^ (w - shift)\<close> for a sample of
  width \<open>w\<close>. So with a buffer of \<open>2 ^ (w - shift)\<close> counters (256 for
  \<open>uint8\<close>) every store of \<open>hist_uint8\<close>, \<open>hist_uint16\<close>,
  \<open>masked_hist_uint8\<close> and \<open>masked_hist_uint16\<close> is inside the buffer: the
  functions return a histogram of the same length, whatever the buffer held before.
\<close>

theorem fixed_index_in_bounds:
  fixes mem8 :: "addr \<Rightarrow> 8 word" and mem16 :: "addr \<Rightarrow> 16 word"
  assumes "view_ok rows cols r_stride c_stride" and "mask_ok rows cols starts ends"
    and "unat shift \<le> 16" and "length h8 = 2 ^ 8" and "length h16 = 2 ^ (16 - unat shift)"
  shows "fixed_bin_uint8 v8 = Some (uint v8) \<and> 0 \<le> uint v8 \<and> uint v8 < 2 ^ 8
       \<and> fixed_bin_uint16 shift v16 = Some (uint (drop_bit (unat shift) v16))
       \<and> 0 \<le> uint (drop_bit (unat shift) v16)
       \<and> uint (drop_bit (unat shift) v16) < 2 ^ (16 - unat shift)
       \<and> (\<exists>h' mm. hist_uint8 mem8 img rows cols r_stride c_stride h8 = Some (h', mm)
              \<and> length h' = length h8)
       \<and> (\<exists>h' mm. hist_uint16 mem16 img rows cols r_stride c_stride h16 shift = Some (h', mm)
              \<and> length h' = length h16)
       \<and> (\<exists>h' mm. masked_hist_uint8 mem8 img rows cols r_stride c_stride starts ends h8
                = Some (h', mm) \<and> length h' = length h8)
       \<and> (\<exists>h' mm. masked_hist_uint16 mem16 img rows cols r_stride c_stride starts ends h16 shift
                = Some (h', mm) \<and> length h' = length h16)"
proof -
  have i8: "fixed_bin_uint8 v8 = Some (uint v8) \<and> 0 \<le> uint v8 \<and> uint v8 < 2 ^ 8"
    using uint_bounded [of v8] by (simp add: fixed_bin_uint8_def)
  have i16: "fixed_bin_uint16 shift v16 = Some (uint (drop_bit (unat shift) v16))
       \<and> 0 \<le> uint (drop_bit (unat shift) v16)
       \<and> uint (drop_bit (unat shift) v16) < 2 ^ (16 - unat shift)"
    using shifted_bound [OF assms(3), of v16]
    by (simp only: fixed_bin_uint16_def uint_shift_right simp_thms)
  have b8: "in_bounds fixed_bin_uint8 vs (length h8)" for vs
    using fixed_bin_uint8_in_bounds [of vs] by (simp add: assms(4))
  have b16: "in_bounds (fixed_bin_uint16 shift) vs (length h16)" for vs
    unfolding assms(5) by (rule fixed_bin_uint16_in_bounds [OF assms(3)])
  have a: "\<exists>h' mm. hist_uint8 mem8 img rows cols r_stride c_stride h8 = Some (h', mm)
              \<and> length h' = length h8"
    unfolding hist_uint8_def scan_rows_visit [OF assms(1)] by (rule hist_defined [OF b8])
  have b: "\<exists>h' mm. hist_uint16 mem16 img rows cols r_stride c_stride h16 shift = Some (h', mm)
              \<and> length h' = length h16"
    unfolding hist_uint16_def scan_rows_visit [OF assms(1)] by (rule hist_defined [OF b16])
  have c: "\<exists>h' mm. masked_hist_uint8 mem8 img rows cols r_stride c_stride starts ends h8
                = Some (h', mm) \<and> length h' = length h8"
    unfolding masked_hist_uint8_def Let_def scan_spans_visit [OF assms(1,2)]
    by (rule hist_defined [OF b8])
  have d: "\<exists>h' mm. masked_hist_uint16 mem16 img rows cols r_stride c_stride starts ends h16 shift
                = Some (h', mm) \<and> length h' = length h16"
    unfolding masked_hist_uint16_def Let_def scan_spans_visit [OF assms(1,2)]
    by (rule hist_defined [OF b16])
  from i8 i16 a b c d show ?thesis by (simp only: simp_thms)
qed

text \<open>The largest 16-bit sample with shift 4 lands in bin 4095 of 4096.\<close>

theorem fixed_index_in_bounds_witness:
  "fixed_bin_uint16 4 65535 = Some 4095
   \<and> (\<exists>h' mm. hist_uint8 (\<lambda>p. of_nat p) 0 2 2 4 2 (replicate 256 7) = Some (h', mm)
          \<and> length h' = 256)
   \<and> (\<exists>h' mm. hist_uint16 (\<lambda>p. of_nat p) 0 2 2 4 2 (replicate 4096 7) 4 = Some (h', mm)
          \<and> length h' = 4096)
   \<and> (\<exists>h' mm. masked_hist_uint8 (\<lambda>p. of_nat p) 0 2 2 4 2 (\<lambda>i. [0, 1] ! i) (\<lambda>i. [1, 2] ! i)
                    (replicate 256 7) = Some (h', mm) \<and> length h' = 256)
   \<and> (\<exists>h' mm. masked_hist_uint16 (\<lambda>p. of_nat p) 0 2 2 4 2 (\<lambda>i. [0, 1] ! i) (\<lambda>i. [1, 2] ! i)
                    (replicate 4096 7) 4 = Some (h', mm) \<and> length h' = 4096)"
proof -
  have v: "view_ok 2 2 4 2" by (simp add: view_ok_def)
  have m: "mask_ok 2 2 (\<lambda>i. [0, 1] ! i) (\<lambda>i. [1, 2] ! i)"
    by (rule mask_ok_two_rows) simp_all
  have s: "unat (4 :: 8 word) \<le> 16" by simp
  have l: "length (replicate 256 (7 :: 32 word)) = 2 ^ 8"
    "length (replicate 4096 (7 :: 32 word)) = 2 ^ (16 - unat (4 :: 8 word))" by simp_all
  show ?thesis
    using fixed_index_in_bounds [OF v m s l, where ?mem8.0 = "\<lambda>p. of_nat p"
        and ?mem16.0 = "\<lambda>p. of_nat p" and img = 0 and ?v8.0 = 0 and ?v16.0 = 65535]
    by (simp add: drop_bit_eq_div)
qed

section \<open>C7: a full mask gives the unmasked result\<close>

text \<open>
  Claim C7. For a non-empty image and a mask whose span is the full row \<open>[0, cols)\<close>
  in every row, \<open>masked_minmax_float\<close> returns exactly the pair that
  \<open>minmax_float\<close> returns on the same image, and that call does return. The same
  holds for the 8-bit and 16-bit functions that report min/max next to a histogram.
\<close>

theorem masked_full_equals_unmasked:
  fixes memf :: "addr \<Rightarrow> 'f::linorder" and mem8 :: "addr \<Rightarrow> 8 word" and mem16 :: "addr \<Rightarrow> 16 word"
  assumes "view_ok rows cols r_stride c_stride" and "rows \<noteq> 0"
    and "\<forall>i < unat rows. starts i = 0 \<and> ends i = cols"
  shows "masked_minmax_float memf img rows cols r_stride c_stride starts ends =
           minmax_float memf img rows cols r_stride c_stride
       \<and> (\<exists>mn mx. minmax_float memf img rows cols r_stride c_stride = Some (mn, mx))
       \<and> masked_hist_uint8 mem8 img rows cols r_stride c_stride starts ends h =
           hist_uint8 mem8 img rows cols r_stride c_stride h
       \<and> masked_hist_uint16 mem16 img rows cols r_stride c_stride starts ends h shift =
           hist_uint16 mem16 img rows cols r_stride c_stride h shift"
proof -
  note m = full_mask_ok [OF assms(3)]
  note seed = full_span_seed [OF assms(2,3)]
  have s: "span_samples mem img rows r_stride c_stride starts ends =
           image_samples mem img rows cols r_stride c_stride" for mem :: "addr \<Rightarrow> 'v"
    by (simp only: span_samples_def image_samples_def full_span_pixels [OF assms(3)])
  have a: "masked_minmax_float memf img rows cols r_stride c_stride starts ends =
           minmax_float memf img rows cols r_stride c_stride"
    by (simp only: masked_minmax_float_def minmax_float_def Let_def seed
        scan_spans_track [OF assms(1) m] scan_rows_track [OF assms(1)] s)
  have b: "\<exists>mn mx. minmax_float memf img rows cols r_stride c_stride = Some (mn, mx)"
    by (simp add: minmax_float_def scan_rows_track [OF assms(1)])
  have c: "masked_hist_uint8 mem8 img rows cols r_stride c_stride starts ends h =
           hist_uint8 mem8 img rows cols r_stride c_stride h"
    by (simp only: masked_hist_uint8_def hist_uint8_def Let_def seed
        scan_spans_visit [OF assms(1) m] scan_rows_visit [OF assms(1)] s)
  have d: "masked_hist_uint16 mem16 img rows cols r_stride c_stride starts ends h shift =
           hist_uint16 mem16 img rows cols r_stride c_stride h shift"
    by (simp only: masked_hist_uint16_def hist_uint16_def Let_def seed
        scan_spans_visit [OF assms(1) m] scan_rows_visit [OF assms(1)] s)
  from a b c d show ?thesis by (intro conjI)
qed

text \<open>The image \<open>[[10, 20], [30, 255]]\<close> with \<open>starts = [0, 0]\<close>, \<open>ends = [2, 2]\<close>.\<close>

theorem masked_full_equals_unmasked_witness:
  "masked_minmax_float (\<lambda>p. [10, 20, 30, 255 :: int] ! p) 0 2 2 2 1 (\<lambda>i. 0) (\<lambda>i. 2) =
     minmax_float (\<lambda>p. [10, 20, 30, 255 :: int] ! p) 0 2 2 2 1
   \<and> masked_minmax_float (\<lambda>p. [10, 20, 30, 255 :: int] ! p) 0 2 2 2 1 (\<lambda>i. 0) (\<lambda>i. 2) =
     Some (10, 255)"
proof -
  have v: "view_ok 2 2 2 1" by (simp add: view_ok_def)
  have r: "(2 :: 16 word) \<noteq> 0" by simp
  have f: "\<forall>i < unat (2 :: 16 word). (\<lambda>i. 0 :: 16 word) i = 0 \<and> (\<lambda>i. 2 :: 16 word) i = 2"
    by simp
  have s: "image_samples (\<lambda>p. [10, 20, 30, 255 :: int] ! p) 0 2 2 2 1 = [10, 20, 30, 255]"
    by (simp add: image_samples_def image_pixels_def upt_rec)
  have e: "minmax_float (\<lambda>p. [10, 20, 30, 255 :: int] ! p) 0 2 2 2 1 = Some (10, 255)"
    unfolding minmax_float_def scan_rows_track [OF v] s by (simp add: track_def)
  show ?thesis
    using masked_full_equals_unmasked [OF v r f, where memf = "\<lambda>p. [10, 20, 30, 255 :: int] ! p"
      and img = 0 and ?mem8.0 = "\<lambda>p. 0" and ?mem16.0 = "\<lambda>p. 0" and h = "[]" and shift = 0]
    by (simp add: e)
qed

section \<open>C8: the seed of the masked functions\<close>

text \<open>
  Claim C8. A masked function starts its working min and max from the sample at row 0,
  column \<open>starts[0]\<close>, and then visits the samples of the spans. If every row's span
  is empty (\<open>starts[i] = ends[i]\<close> for all rows) it writes that sample to both
  \<open>*min\<close> and \<open>*max\<close> and leaves the histogram as it was: no bin is
  incremented.
\<close>

theorem empty_mask_leaves_seed:
  fixes memf :: "addr \<Rightarrow> 'f::linorder" and mem8 :: "addr \<Rightarrow> 8 word" and mem16 :: "addr \<Rightarrow> 16 word"
  assumes "view_ok rows cols r_stride c_stride" and "mask_ok rows cols starts ends"
    and "rows \<noteq> 0"
  shows "masked_minmax_float memf img rows cols r_stride c_stride starts ends =
           Some (fold track (span_samples memf img rows r_stride c_stride starts ends)
                  (memf (pixel_at img r_stride c_stride 0 (unat (starts 0))),
                   memf (pixel_at img r_stride c_stride 0 (unat (starts 0)))))
       \<and> masked_hist_uint8 mem8 img rows cols r_stride c_stride starts ends h =
           fold_opt (visit fixed_bin_uint8) (span_samples mem8 img rows r_stride c_stride starts ends)
             (h, mem8 (pixel_at img r_stride c_stride 0 (unat (starts 0))),
                 mem8 (pixel_at img r_stride c_stride 0 (unat (starts 0))))
       \<and> ((\<forall>i < unat rows. starts i = ends i) \<longrightarrow>
           masked_minmax_float memf img rows cols r_stride c_stride starts ends =
             Some (memf (pixel_at img r_stride c_stride 0 (unat (starts 0))),
                   memf (pixel_at img r_stride c_stride 0 (unat (starts 0))))
         \<and> masked_hist_uint8 mem8 img rows cols r_stride c_stride starts ends h =
             Some (h, mem8 (pixel_at img r_stride c_stride 0 (unat (starts 0))),
                      mem8 (pixel_at img r_stride c_stride 0 (unat (starts 0))))
         \<and> masked_ranged_hist_uint8 mem8 img rows cols r_stride c_stride starts ends h min8 max8 =
             Some (h, mem8 (pixel_at img r_stride c_stride 0 (unat (starts 0))),
                      mem8 (pixel_at img r_stride c_stride 0 (unat (starts 0))))
         \<and> masked_hist_uint16 mem16 img rows cols r_stride c_stride starts ends h shift =
             Some (h, mem16 (pixel_at img r_stride c_stride 0 (unat (starts 0))),
                      mem16 (pixel_at img r_stride c_stride 0 (unat (starts 0))))
         \<and> masked_ranged_hist_uint16 to_bin16 mem16 img rows cols r_stride c_stride starts ends h
               n_bins min16 max16 =
             Some (h, mem16 (pixel_at img r_stride c_stride 0 (unat (starts 0))),
                      mem16 (pixel_at img r_stride c_stride 0 (unat (starts 0))))
         \<and> masked_ranged_hist_float to_binf memf img rows cols r_stride c_stride starts ends h
               n_bins minf maxf = Some h)"
  by (simp add: Let_def pixel_at_def masked_minmax_float_def masked_hist_uint8_def
      masked_ranged_hist_uint8_def masked_hist_uint16_def masked_ranged_hist_uint16_def
      masked_ranged_hist_float_def
      scan_spans_track [OF assms(1,2)] scan_spans_visit [OF assms(1,2)]
      scan_spans_store [OF assms(1,2)] empty_span_samples
      seed_address [OF assms(1,2,3)])

text \<open>
  The image \<open>[[10, 20], [30, 255]]\<close> with \<open>starts = ends = [1, 1]\<close>: the seed is the
  sample 20 at row 0, column 1.
\<close>

theorem empty_mask_leaves_seed_witness:
  "masked_minmax_float (\<lambda>p. [10, 20, 30, 255 :: int] ! p) 0 2 2 2 1 (\<lambda>i. 1) (\<lambda>i. 1) =
     Some (20, 20)
   \<and> masked_hist_uint8 (\<lambda>p. [10, 20, 30, 255] ! p) 0 2 2 2 1 (\<lambda>i. 1) (\<lambda>i. 1) [0, 0, 0] =
     Some ([0, 0, 0], 20, 20)
   \<and> masked_ranged_hist_float (\<lambda>n lo hi v. 0) (\<lambda>p. [10, 20, 30, 255 :: int] ! p) 0 2 2 2 1
       (\<lambda>i. 1) (\<lambda>i. 1) [0, 0, 0] 3 10 30 = Some [0, 0, 0]"
proof -
  have v: "view_ok 2 2 2 1" by (simp add: view_ok_def)
  have m: "mask_ok 2 2 (\<lambda>i. 1) (\<lambda>i. 1)" by (simp add: mask_ok_def)
  have r: "(2 :: 16 word) \<noteq> 0" by simp
  note t = empty_mask_leaves_seed [OF v m r, where memf = "\<lambda>p. [10, 20, 30, 255 :: int] ! p"
      and img = 0 and ?mem8.0 = "\<lambda>p. [10, 20, 30, 255] ! p" and ?mem16.0 = "\<lambda>p. 0"
      and h = "[0, 0, 0]" and shift = 0 and to_binf = "\<lambda>n lo hi v. 0" and n_bins = 3
      and minf = 10 and maxf = 30 and ?min8.0 = 0 and ?max8.0 = 0 and ?min16.0 = 0
      and ?max16.0 = 0 and ?to_bin16.0 = "\<lambda>n lo hi v. 0"]
  from t [THEN conjunct2, THEN conjunct2] show ?thesis by (simp add: pixel_at_def)
qed

section \<open>C6: a ranged histogram drops the samples outside the range\<close>



section \<open>C4: where a sample equal to \<open>hist_max\<close> is counted\<close>




section \<open>C3: the bin of a sample inside the range\<close>




section \<open>C10: the working minimum never exceeds the working maximum\<close>

text \<open>
  Claim C10. In the integer scan loops \<open>working_min \<le> working_max\<close> holds after every
  per-sample update: both start equal to the seed, and an update from an ordered pair gives
  an ordered pair, whose minimum has not grown and whose maximum has not shrunk. Under this
  invariant the \<^verbatim>\<open>else if\<close> of the code is the same update as two independent
  comparisons, so no maximum update is missed. Hence whatever one of the eight 8-bit and
  16-bit functions writes to \<open>*min\<close> and \<open>*max\<close> satisfies \<open>min \<le> max\<close>. The
  invariant is carried through the pointer loops themselves and needs no assumption on the
  strides or the buffer; that the functions return is shown with C2, C6 and C9.
\<close>

theorem working_min_le_max:
  fixes mem8 :: "addr \<Rightarrow> 8 word" and mem16 :: "addr \<Rightarrow> 16 word"
  shows "(wmin \<le> wmax \<longrightarrow>
            fst (track v (wmin, wmax)) \<le> snd (track v (wmin, wmax))
          \<and> fst (track v (wmin, wmax)) \<le> wmin \<and> wmax \<le> snd (track v (wmin, wmax))
          \<and> track v (wmin, wmax) = track_both v (wmin, wmax))
       \<and> (hist_uint8 mem8 img rows cols r_stride c_stride h = Some (h', mn8, mx8)
            \<longrightarrow> mn8 \<le> mx8)
       \<and> (ranged_hist_uint8 mem8 img rows cols r_stride c_stride h min8 max8 = Some (h', mn8, mx8)
            \<longrightarrow> mn8 \<le> mx8)
       \<and> (masked_hist_uint8 mem8 img rows cols r_stride c_stride starts ends h = Some (h', mn8, mx8)
            \<longrightarrow> mn8 \<le> mx8)
       \<and> (masked_ranged_hist_uint8 mem8 img rows cols r_stride c_stride starts ends h min8 max8
              = Some (h', mn8, mx8)
            \<longrightarrow> mn8 \<le> mx8)
       \<and> (hist_uint16 mem16 img rows cols r_stride c_stride h shift = Some (h', mn16, mx16)
            \<longrightarrow> mn16 \<le> mx16)
       \<and> (ranged_hist_uint16 to_bin mem16 img rows cols r_stride c_stride h n_bins min16 max16
              = Some (h', mn16, mx16)
            \<longrightarrow> mn16 \<le> mx16)
       \<and> (masked_hist_uint16 mem16 img rows cols r_stride c_stride starts ends h shift
              = Some (h', mn16, mx16)
            \<longrightarrow> mn16 \<le> mx16)
       \<and> (masked_ranged_hist_uint16 to_bin mem16 img rows cols r_stride c_stride starts ends h
              n_bins min16 max16 = Some (h', mn16, mx16)
            \<longrightarrow> mn16 \<le> mx16)"
proof -
  show ?thesis
    unfolding hist_uint8_def ranged_hist_uint8_def masked_hist_uint8_def
      masked_ranged_hist_uint8_def hist_uint16_def ranged_hist_uint16_def
      masked_hist_uint16_def masked_ranged_hist_uint16_def Let_def
    by (intro conjI impI; (elim hist_rows_ordered hist_spans_ordered)?)
      (auto simp: track_def track_both_def)
qed

text \<open>A row of two pixels, 7 and 12, through each of the eight functions.\<close>

theorem working_min_le_max_witness:
  "track (5 :: nat) (7, 12) = track_both 5 (7, 12)
   \<and> (\<exists>h' mn mx. hist_uint8 (\<lambda>p. [7, 12] ! p) 0 1 2 2 1 (replicate 256 0) = Some (h', mn, mx) \<and> mn \<le> mx)
   \<and> (\<exists>h' mn mx. ranged_hist_uint8 (\<lambda>p. [7, 12] ! p) 0 1 2 2 1 (replicate 8 0) 5 12 = Some (h', mn, mx) \<and> mn \<le> mx)
   \<and> (\<exists>h' mn mx. masked_hist_uint8 (\<lambda>p. [7, 12] ! p) 0 1 2 2 1 (\<lambda>i. 0) (\<lambda>i. 2) (replicate 256 0) = Some (h', mn, mx) \<and> mn \<le> mx)
   \<and> (\<exists>h' mn mx. masked_ranged_hist_uint8 (\<lambda>p. [7, 12] ! p) 0 1 2 2 1 (\<lambda>i. 0) (\<lambda>i. 2) (replicate 8 0) 5 12 = Some (h', mn, mx) \<and> mn \<le> mx)
   \<and> (\<exists>h' mn mx. hist_uint16 (\<lambda>p. [7, 12] ! p) 0 1 2 2 1 (replicate 4096 0) 4 = Some (h', mn, mx) \<and> mn \<le> mx)
   \<and> (\<exists>h' mn mx. ranged_hist_uint16 (\<lambda>n lo hi v. 0) (\<lambda>p. [7, 12] ! p) 0 1 2 2 1 (replicate 3 0) 3 5 12 = Some (h', mn, mx) \<and> mn \<le> mx)
   \<and> (\<exists>h' mn mx. masked_hist_uint16 (\<lambda>p. [7, 12] ! p) 0 1 2 2 1 (\<lambda>i. 0) (\<lambda>i. 2) (replicate 4096 0) 4 = Some (h', mn, mx) \<and> mn \<le> mx)
   \<and> (\<exists>h' mn mx. masked_ranged_hist_uint16 (\<lambda>n lo hi v. 0) (\<lambda>p. [7, 12] ! p) 0 1 2 2 1 (\<lambda>i. 0) (\<lambda>i. 2) (replicate 3 0) 3 5 12 = Some (h', mn, mx) \<and> mn \<le> mx)"
proof -
  have v: "view_ok 1 2 2 1" by (simp add: view_ok_def)
  have m: "mask_ok 1 2 (\<lambda>i. 0) (\<lambda>i. 2)" by (simp add: mask_ok_def)
  have b8: "in_bounds fixed_bin_uint8 vs (length (replicate 256 (0 :: 32 word)))" for vs
    using fixed_bin_uint8_in_bounds [of vs] by simp
  have r8: "in_bounds (ranged_bin_uint8 5 12) vs (length (replicate 8 (0 :: 32 word)))" for vs
    using ranged_bin_uint8_in_bounds [of 12 5 8 vs] by simp
  have b16: "in_bounds (fixed_bin_uint16 4) vs (length (replicate 4096 (0 :: 32 word)))" for vs
    using fixed_bin_uint16_in_bounds [of 4 vs] by simp
  have r16: "in_bounds (ranged_bin (\<lambda>n lo hi v. 0) 3 (5 :: 16 word) 12) vs
      (length (replicate 3 (0 :: 32 word)))" for vs
    using ranged_bin_in_bounds [where to_bin = "\<lambda>n lo hi v. 0" and n_bins = 3
        and lo = "5 :: 16 word" and hi = 12 and vs = vs] by simp
  have c0: "track (5 :: nat) (7, 12) = track_both 5 (7, 12)"
    using working_min_le_max [THEN conjunct1, of "7 :: nat" 12 5] by simp
  have c1: "\<exists>h' mn mx. hist_uint8 (\<lambda>p. [7, 12] ! p) 0 1 2 2 1 (replicate 256 0) = Some (h', mn, mx) \<and> mn \<le> mx"
  proof -
    have "\<exists>h' mn mx. hist_uint8 (\<lambda>p. [7, 12] ! p) 0 1 2 2 1 (replicate 256 0) = Some (h', mn, mx)"
      unfolding hist_uint8_def by (rule rows_defined [OF v b8])
    then obtain h' mn mx where r: "hist_uint8 (\<lambda>p. [7, 12] ! p) 0 1 2 2 1 (replicate 256 0) = Some (h', mn, mx)" by blast
    from working_min_le_max [THEN conjunct2, THEN conjunct1, THEN mp, OF r] r show ?thesis by blast
  qed
  have c2: "\<exists>h' mn mx. ranged_hist_uint8 (\<lambda>p. [7, 12] ! p) 0 1 2 2 1 (replicate 8 0) 5 12 = Some (h', mn, mx) \<and> mn \<le> mx"
  proof -
    have "\<exists>h' mn mx. ranged_hist_uint8 (\<lambda>p. [7, 12] ! p) 0 1 2 2 1 (replicate 8 0) 5 12 = Some (h', mn, mx)"
      unfolding ranged_hist_uint8_def by (rule rows_defined [OF v r8])
    then obtain h' mn mx where r: "ranged_hist_uint8 (\<lambda>p. [7, 12] ! p) 0 1 2 2 1 (replicate 8 0) 5 12 = Some (h', mn, mx)" by blast
    from working_min_le_max [THEN conjunct2, THEN conjunct2, THEN conjunct1, THEN mp, OF r] r show ?thesis by blast
  qed
  have c3: "\<exists>h' mn mx. masked_hist_uint8 (\<lambda>p. [7, 12] ! p) 0 1 2 2 1 (\<lambda>i. 0) (\<lambda>i. 2) (replicate 256 0) = Some (h', mn, mx) \<and> mn \<le> mx"
  proof -
    have "\<exists>h' mn mx. masked_hist_uint8 (\<lambda>p. [7, 12] ! p) 0 1 2 2 1 (\<lambda>i. 0) (\<lambda>i. 2) (replicate 256 0) = Some (h', mn, mx)"
      unfolding masked_hist_uint8_def Let_def by (rule spans_defined [OF v m b8])
    then obtain h' mn mx where r: "masked_hist_uint8 (\<lambda>p. [7, 12] ! p) 0 1 2 2 1 (\<lambda>i. 0) (\<lambda>i. 2) (replicate 256 0) = Some (h', mn, mx)" by blast
    from working_min_le_max [THEN conjunct2, THEN conjunct2, THEN conjunct2, THEN conjunct1, THEN mp, OF r] r show ?thesis by blast
  qed
  have c4: "\<exists>h' mn mx. masked_ranged_hist_uint8 (\<lambda>p. [7, 12] ! p) 0 1 2 2 1 (\<lambda>i. 0) (\<lambda>i. 2) (replicate 8 0) 5 12 = Some (h', mn, mx) \<and> mn \<le> mx"
  proof -
    have "\<exists>h' mn mx. masked_ranged_hist_uint8 (\<lambda>p. [7, 12] ! p) 0 1 2 2 1 (\<lambda>i. 0) (\<lambda>i. 2) (replicate 8 0) 5 12 = Some (h', mn, mx)"
      unfolding masked_ranged_hist_uint8_def Let_def by (rule spans_defined [OF v m r8])
    then obtain h' mn mx where r: "masked_ranged_hist_uint8 (\<lambda>p. [7, 12] ! p) 0 1 2 2 1 (\<lambda>i. 0) (\<lambda>i. 2) (replicate 8 0) 5 12 = Some (h', mn, mx)" by blast
    from working_min_le_max [THEN conjunct2, THEN conjunct2, THEN conjunct2, THEN conjunct2, THEN conjunct1, THEN mp, OF r] r show ?thesis by blast
  qed
  have c5: "\<exists>h' mn mx. hist_uint16 (\<lambda>p. [7, 12] ! p) 0 1 2 2 1 (replicate 4096 0) 4 = Some (h', mn, mx) \<and> mn \<le> mx"
  proof -
    have "\<exists>h' mn mx. hist_uint16 (\<lambda>p. [7, 12] ! p) 0 1 2 2 1 (replicate 4096 0) 4 = Some (h', mn, mx)"
      unfolding hist_uint16_def by (rule rows_defined [OF v b16])
    then obtain h' mn mx where r: "hist_uint16 (\<lambda>p. [7, 12] ! p) 0 1 2 2 1 (replicate 4096 0) 4 = Some (h', mn, mx)" by blast
    from working_min_le_max [THEN conjunct2, THEN conjunct2, THEN conjunct2, THEN conjunct2, THEN conjunct2, THEN conjunct1, THEN mp, OF r] r show ?thesis by blast
  qed
  have c6: "\<exists>h' mn mx. ranged_hist_uint16 (\<lambda>n lo hi v. 0) (\<lambda>p. [7, 12] ! p) 0 1 2 2 1 (replicate 3 0) 3 5 12 = Some (h', mn, mx) \<and> mn \<le> mx"
  proof -
    have "\<exists>h' mn mx. ranged_hist_uint16 (\<lambda>n lo hi v. 0) (\<lambda>p. [7, 12] ! p) 0 1 2 2 1 (replicate 3 0) 3 5 12 = Some (h', mn, mx)"
      unfolding ranged_hist_uint16_def by (rule rows_defined [OF v r16])
    then obtain h' mn mx where r: "ranged_hist_uint16 (\<lambda>n lo hi v. 0) (\<lambda>p. [7, 12] ! p) 0 1 2 2 1 (replicate 3 0) 3 5 12 = Some (h', mn, mx)" by blast
    from working_min_le_max [THEN conjunct2, THEN conjunct2, THEN conjunct2, THEN conjunct2, THEN conjunct2, THEN conjunct2, THEN conjunct1, THEN mp, OF r] r show ?thesis by blast
  qed
  have c7: "\<exists>h' mn mx. masked_hist_uint16 (\<lambda>p. [7, 12] ! p) 0 1 2 2 1 (\<lambda>i. 0) (\<lambda>i. 2) (replicate 4096 0) 4 = Some (h', mn, mx) \<and> mn \<le> mx"
  proof -
    have "\<exists>h' mn mx. masked_hist_uint16 (\<lambda>p. [7, 12] ! p) 0 1 2 2 1 (\<lambda>i. 0) (\<lambda>i. 2) (replicate 4096 0) 4 = Some (h', mn, mx)"
      unfolding masked_hist_uint16_def Let_def by (rule spans_defined [OF v m b16])
    then obtain h' mn mx where r: "masked_hist_uint16 (\<lambda>p. [7, 12] ! p) 0 1 2 2 1 (\<lambda>i. 0) (\<lambda>i. 2) (replicate 4096 0) 4 = Some (h', mn, mx)" by blast
    from working_min_le_max [THEN conjunct2, THEN conjunct2, THEN conjunct2, THEN conjunct2, THEN conjunct2, THEN conjunct2, THEN conjunct2, THEN conjunct1, THEN mp, OF r] r show ?thesis by blast
  qed
  have c8: "\<exists>h' mn mx. masked_ranged_hist_uint16 (\<lambda>n lo hi v. 0) (\<lambda>p. [7, 12] ! p) 0 1 2 2 1 (\<lambda>i. 0) (\<lambda>i. 2) (replicate 3 0) 3 5 12 = Some (h', mn, mx) \<and> mn \<le> mx"
  proof -
    have "\<exists>h' mn mx. masked_ranged_hist_uint16 (\<lambda>n lo hi v. 0) (\<lambda>p. [7, 12] ! p) 0 1 2 2 1 (\<lambda>i. 0) (\<lambda>i. 2) (replicate 3 0) 3 5 12 = Some (h', mn, mx)"
      unfolding masked_ranged_hist_uint16_def Let_def by (rule spans_defined [OF v m r16])
    then obtain h' mn mx where r: "masked_ranged_hist_uint16 (\<lambda>n lo hi v. 0) (\<lambda>p. [7, 12] ! p) 0 1 2 2 1 (\<lambda>i. 0) (\<lambda>i. 2) (replicate 3 0) 3 5 12 = Some (h', mn, mx)" by blast
    from working_min_le_max [THEN conjunct2, THEN conjunct2, THEN conjunct2, THEN conjunct2, THEN conjunct2, THEN conjunct2, THEN conjunct2, THEN conjunct2, THEN mp, OF r] r show ?thesis by blast
  qed
  from c0 c1 c2 c3 c4 c5 c6 c7 c8 show ?thesis by (intro conjI)
qed

section \<open>C5: the histogram length test of the two entry points\<close>

text \<open>
  Claim C5 says that for a \<open>uint16\<close> image without \<open>is_twelve_bit\<close> the masked and
  the unmasked entry point reject the call, before any sample is read, unless the histogram
  has \<open>bin_count<uint16_t>()\<close> elements. The unmasked entry point does. The masked one
  compares the length with \<open>bin_count<uint8_t>()\<close>, while its error message names
  \<open>bin_count<uint16_t>()\<close>. So whenever the two counts differ, on otherwise acceptable
  buffers: a histogram of the 16-bit count is accepted by \<open>py_hist_min_max\<close> and
  rejected by \<open>py_masked_hist_min_max\<close>, and a histogram of the 8-bit count is rejected
  by the first and passed on to the kernel by the second.
\<close>

theorem masked_uint16_length_check_differs:
  assumes "bin_count Uint8 \<noteq> bin_count Uint16"
    and "ndim im_info = 2" and "format im_info = Uint16"
    and "ndim mask_info = 2" and "format mask_info = Uint8"
    and "ndim hist_info = 1" and "format hist_info = Uint32"
    and "ndim min_max_info = 1" and "format min_max_info = Uint16"
    and "shape min_max_info = [2]"
  shows "(shape hist_info = [bin_count Uint16] \<longrightarrow>
            py_hist_min_max bin_count im_info hist_info min_max_info False =
              Inr (Hist_min_max Uint16 False)
          \<and> py_masked_hist_min_max bin_count im_info mask_info hist_info min_max_info False =
              Inl (Hist_length (bin_count Uint16) Uint16))
       \<and> (shape hist_info = [bin_count Uint8] \<longrightarrow>
            py_hist_min_max bin_count im_info hist_info min_max_info False =
              Inl (Hist_length (bin_count Uint16) Uint16)
          \<and> py_masked_hist_min_max bin_count im_info mask_info hist_info min_max_info False =
              Inr (Masked_hist_min_max Uint16 False))"
  using assms by (auto simp: py_hist_min_max_def py_masked_hist_min_max_def)

text \<open>
  With the counts the specification names, 256 for 8-bit samples and 4096 for 16-bit
  samples, and a 2 by 2 image.
\<close>

theorem masked_uint16_length_check_differs_witness:
  "py_hist_min_max (\<lambda>f. if f = Uint8 then 256 else 4096)
      \<lparr>ndim = 2, format = Uint16, shape = [2, 2]\<rparr>
      \<lparr>ndim = 1, format = Uint32, shape = [4096]\<rparr>
      \<lparr>ndim = 1, format = Uint16, shape = [2]\<rparr> False =
     Inr (Hist_min_max Uint16 False)
   \<and> py_masked_hist_min_max (\<lambda>f. if f = Uint8 then 256 else 4096)
      \<lparr>ndim = 2, format = Uint16, shape = [2, 2]\<rparr>
      \<lparr>ndim = 2, format = Uint8, shape = [2, 2]\<rparr>
      \<lparr>ndim = 1, format = Uint32, shape = [4096]\<rparr>
      \<lparr>ndim = 1, format = Uint16, shape = [2]\<rparr> False =
     Inl (Hist_length 4096 Uint16)
   \<and> py_masked_hist_min_max (\<lambda>f. if f = Uint8 then 256 else 4096)
      \<lparr>ndim = 2, format = Uint16, shape = [2, 2]\<rparr>
      \<lparr>ndim = 2, format = Uint8, shape = [2, 2]\<rparr>
      \<lparr>ndim = 1, format = Uint32, shape = [256]\<rparr>
      \<lparr>ndim = 1, format = Uint16, shape = [2]\<rparr> False =
     Inr (Masked_hist_min_max Uint16 False)"
  using masked_uint16_length_check_differs [where bin_count = "\<lambda>f. if f = Uint8 then 256 else 4096"
      and im_info = "\<lparr>ndim = 2, format = Uint16, shape = [2, 2]\<rparr>"
      and mask_info = "\<lparr>ndim = 2, format = Uint8, shape = [2, 2]\<rparr>"
      and hist_info = "\<lparr>ndim = 1, format = Uint32, shape = [4096]\<rparr>"
      and min_max_info = "\<lparr>ndim = 1, format = Uint16, shape = [2]\<rparr>"]
    masked_uint16_length_check_differs [where bin_count = "\<lambda>f. if f = Uint8 then 256 else 4096"
      and im_info = "\<lparr>ndim = 2, format = Uint16, shape = [2, 2]\<rparr>"
      and mask_info = "\<lparr>ndim = 2, format = Uint8, shape = [2, 2]\<rparr>"
      and hist_info = "\<lparr>ndim = 1, format = Uint32, shape = [256]\<rparr>"
      and min_max_info = "\<lparr>ndim = 1, format = Uint16, shape = [2]\<rparr>"]
  by simp

end
